theory Spec2Isabelle
  imports Complex_Main
begin

section \<open>Vectors, floats and failures\<close>

text \<open>
  An \<open>Eigen::Vector3f\<close> with finite coordinates is a triple of real numbers. The floats of
  the source are modelled as real numbers: rounding and overflow to infinity are not
  modelled, so a statement about the model speaks about the source where the source's
  float arithmetic is exact (as it is for the halves, eighths and small integers of the
  concrete inputs below). The \<open>int\<close> counters of the source have 32 bits; where the source
  can step one of them beyond the largest \<open>int\<close>, the model has a branch for it.
\<close>

type_synonym Vector3f = "real \<times> real \<times> real"

definition vzero :: Vector3f where
  "vzero = (0, 0, 0)"

fun vadd :: "Vector3f \<Rightarrow> Vector3f \<Rightarrow> Vector3f" where
  "vadd (a, b, c) (a', b', c') = (a + a', b + b', c + c')"

fun vsub :: "Vector3f \<Rightarrow> Vector3f \<Rightarrow> Vector3f" where
  "vsub (a, b, c) (a', b', c') = (a - a', b - b', c - c')"

fun smul :: "real \<Rightarrow> Vector3f \<Rightarrow> Vector3f" where
  "smul w (a, b, c) = (w * a, w * b, w * c)"

fun norm3 :: "Vector3f \<Rightarrow> real" where
  "norm3 (a, b, c) = sqrt (a * a + b * b + c * c)"

text \<open>
  One float of the source is not a number: the sample parameter \<open>0.0f / 0.0f\<close> that
  \<open>generate_spline\<close> computes for resolution 0. A scalar is therefore a real number or
  \<open>NaN\<close>, with the arithmetic that \<open>f\<close> applies to it: a product or difference with a
  \<open>NaN\<close> operand is \<open>NaN\<close>, and \<open>pow(x, 0)\<close> is 1 for every \<open>x\<close>, \<open>NaN\<close> included.
\<close>

datatype float = Fin real | NaN

fun fmul :: "float \<Rightarrow> float \<Rightarrow> float" where
  "fmul (Fin a) (Fin b) = Fin (a * b)"
| "fmul x y = NaN"

fun fsub :: "float \<Rightarrow> float \<Rightarrow> float" where
  "fsub (Fin a) (Fin b) = Fin (a - b)"
| "fsub x y = NaN"

fun fpow :: "float \<Rightarrow> nat \<Rightarrow> float" where
  "fpow x 0 = Fin 1"
| "fpow (Fin a) n = Fin (a ^ n)"
| "fpow NaN n = NaN"

text \<open>
  \<open>(float)t / (float)resolution\<close> for the two \<open>int\<close>s of the sampling loop. The divisor is 0
  only for resolution 0, and the loop then runs for \<open>t = 0\<close> alone.
\<close>

definition int_quotient :: "int \<Rightarrow> int \<Rightarrow> float" where
  "int_quotient t res = (if res = 0 then NaN else Fin (real_of_int t / real_of_int res))"

text \<open>
  A vector computed from a scalar: the control points are finite, so the product of a
  \<open>NaN\<close> weight with a control point has three \<open>NaN\<close> coordinates, and so has every sum
  with it.
\<close>

datatype sample = Finite Vector3f | AllNaN

fun scale :: "float \<Rightarrow> Vector3f \<Rightarrow> sample" where
  "scale (Fin w) p = Finite (smul w p)"
| "scale NaN p = AllNaN"

fun sadd :: "sample \<Rightarrow> sample \<Rightarrow> sample" where
  "sadd (Finite u) (Finite v) = Finite (vadd u v)"
| "sadd x y = AllNaN"

text \<open>
  What is undefined behaviour or an abort in the source, as values: a read outside a
  \<open>std::vector\<close>, a failed \<open>assert\<close>, an \<open>int\<close> stepped beyond the largest \<open>int\<close>, a float
  converted to \<open>int\<close> that is not a number or does not fit, and a dereferenced null pointer.
\<close>

datatype failure =
  OutOfBounds | AssertionFailed | SignedOverflow | UndefinedConversion | NullDereference

abbreviation INT_MAX :: int where
  "INT_MAX \<equiv> 2147483647"

abbreviation INT_MIN :: int where
  "INT_MIN \<equiv> - 2147483648"

text \<open>\<open>v[i]\<close> on a \<open>std::vector\<close>, with the out-of-range read made explicit.\<close>

definition elem_at :: "'a list \<Rightarrow> int \<Rightarrow> failure + 'a" where
  "elem_at xs i = (if 0 \<le> i \<and> i < int (length xs) then Inr (xs ! nat i) else Inl OutOfBounds)"

text \<open>Conversion of a float to \<open>int\<close>: the fractional part is discarded.\<close>

definition trunc :: "real \<Rightarrow> int" where
  "trunc r = (if 0 \<le> r then \<lfloor>r\<rfloor> else \<lceil>r\<rceil>)"

text \<open>
  The square root is not computable on the reals, so \<open>add_norm\<close> below (the only place
  where the source takes a norm) gets a computable equation through the integer square root.
\<close>

primrec floor_sqrt :: "nat \<Rightarrow> nat" where
  "floor_sqrt 0 = 0"
| "floor_sqrt (Suc n) =
     (let r = floor_sqrt n in if (r + 1) * (r + 1) \<le> Suc n then r + 1 else r)"

section \<open>The Bezier spline (bezier\_spline.cpp)\<close>

text \<open>
  Modelled from the spec: \<open>mdi::utils::binomial_coefficient\<close> is declared outside the
  translated sources; the specification calls it \<open>binomial(n, i)\<close>.
\<close>

definition binomial_coefficient :: "nat \<Rightarrow> nat \<Rightarrow> nat" where
  "binomial_coefficient n k = n choose k"

text \<open>
  The members of \<open>class BezierSpline\<close>, whose declaration is outside the translated
  sources. The member \<open>size\<close> is called \<open>size_m\<close> here; it holds \<open>points.size()\<close>, which
  it does in the source for every number of control points that an \<open>int\<close> can count.
  A freshly declared object has empty vectors; \<open>resolution\<close> and \<open>size\<close> are assigned
  before they are read.
\<close>

record BezierSpline =
  input_points :: "Vector3f list"
  resolution :: int
  size_m :: nat
  binomial_lut :: "nat list"
  distance_lut :: "real list"
  spline_points :: "sample list"

definition fresh :: BezierSpline where
  "fresh = \<lparr>input_points = [], resolution = 0, size_m = 0, binomial_lut = [],
            distance_lut = [], spline_points = []\<rparr>"

text \<open>
  \<open>BezierSpline::f\<close>: the loop \<open>for (int i = 0; i < size; i++)\<close> that adds
  \<open>w * input_points[i]\<close> to the running sum, with
  \<open>w = binomial_lut[i] * pow(t, i) * pow(1 - t, size - i)\<close>.
\<close>

function f_loop :: "BezierSpline \<Rightarrow> float \<Rightarrow> nat \<Rightarrow> sample \<Rightarrow> failure + sample" where
  "f_loop s t i spline_point =
     (if i < size_m s then
        (case elem_at (binomial_lut s) (int i) of
           Inl e \<Rightarrow> Inl e
         | Inr b \<Rightarrow>
            (case elem_at (input_points s) (int i) of
               Inl e \<Rightarrow> Inl e
             | Inr p \<Rightarrow>
                 (let w = fmul (fmul (Fin (real b)) (fpow t i))
                            (fpow (fsub (Fin 1) t) (size_m s - i))
                  in f_loop s t (i + 1) (sadd spline_point (scale w p)))))
      else Inr spline_point)"
  by pat_completeness auto
termination
  by (relation "measure (\<lambda>(s, t, i, acc). size_m s - i)") auto

declare f_loop.simps [simp del]

definition f :: "BezierSpline \<Rightarrow> float \<Rightarrow> failure + sample" where
  "f s t = f_loop s t 0 (Finite vzero)"

text \<open>
  \<open>generate_binomial_lut\<close>: pushes \<open>binomial_coefficient(size, i)\<close> for \<open>i = 0 .. size - 1\<close>
  onto the table, which is not cleared first.
\<close>

definition generate_binomial_lut :: "BezierSpline \<Rightarrow> BezierSpline" where
  "generate_binomial_lut s =
     s\<lparr>binomial_lut := binomial_lut s @ map (binomial_coefficient (size_m s)) [0..<size_m s]\<rparr>"

text \<open>
  \<open>generate_distance_lut\<close>: \<open>arc_length_sum\<close> is declared \<open>auto arc_length_sum = 0\<close>, an
  \<open>int\<close>, so each \<open>arc_length_sum += diff.norm()\<close> converts the float sum back to \<open>int\<close>.
  The conversion is undefined when the sum is not a number (a sample with \<open>NaN\<close>
  coordinates) or does not fit an \<open>int\<close>. The loop runs over the consecutive pairs of
  \<open>spline_points\<close>.
\<close>

definition add_norm :: "int \<Rightarrow> Vector3f \<Rightarrow> int" where
  "add_norm arc_length_sum diff = trunc (real_of_int arc_length_sum + norm3 diff)"

fun distance_loop :: "sample list \<Rightarrow> int \<Rightarrow> failure + real list" where
  "distance_loop (Finite p # Finite q # ps) arc_length_sum =
     (let arc_length_sum' = add_norm arc_length_sum (vsub p q)
      in if INT_MIN \<le> arc_length_sum' \<and> arc_length_sum' \<le> INT_MAX then
           (case distance_loop (Finite q # ps) arc_length_sum' of
              Inl e \<Rightarrow> Inl e
            | Inr rest \<Rightarrow> Inr (real_of_int arc_length_sum' # rest))
         else Inl UndefinedConversion)"
| "distance_loop (p # q # ps) arc_length_sum = Inl UndefinedConversion"
| "distance_loop ps arc_length_sum = Inr []"

definition generate_distance_lut :: "BezierSpline \<Rightarrow> failure + BezierSpline" where
  "generate_distance_lut s =
     (case distance_loop (spline_points s) 0 of
        Inl e \<Rightarrow> Inl e
      | Inr rest \<Rightarrow> Inr (s\<lparr>distance_lut := distance_lut s @ [0] @ rest\<rparr>))"

text \<open>
  The sampling loop of \<open>generate_spline\<close>: \<open>for (int t = 0; t <= resolution; t += 1)\<close>
  pushes \<open>f((float)t / (float)resolution)\<close>. When \<open>t\<close> is the largest \<open>int\<close> the step
  \<open>t += 1\<close> overflows.
\<close>

function sample_loop :: "BezierSpline \<Rightarrow> int \<Rightarrow> failure + BezierSpline" where
  "sample_loop s t =
     (if t \<le> resolution s then
        (case f s (int_quotient t (resolution s)) of
           Inl e \<Rightarrow> Inl e
         | Inr p \<Rightarrow>
             if t = INT_MAX then Inl SignedOverflow
             else sample_loop (s\<lparr>spline_points := spline_points s @ [p]\<rparr>) (t + 1))
      else Inr s)"
  by pat_completeness auto
termination
  by (relation "measure (\<lambda>(s, t). nat (resolution s + 1 - t))") auto

declare sample_loop.simps [simp del]

text \<open>\<open>generate_spline\<close>.\<close>

definition generate_spline :: "BezierSpline \<Rightarrow> Vector3f list \<Rightarrow> int \<Rightarrow> failure + BezierSpline" where
  "generate_spline s0 points res =
     (let s1 = s0\<lparr>input_points := points, resolution := res, size_m := length points\<rparr>;
          s2 = (if length (binomial_lut s1) \<noteq> size_m s1 then generate_binomial_lut s1 else s1)
      in if length points \<noteq> length (binomial_lut s2) then Inl AssertionFailed
         else (case generate_distance_lut s2 of
                 Inl e \<Rightarrow> Inl e
               | Inr s3 \<Rightarrow> sample_loop s3 0))"

text \<open>The constructor: \<open>generate_spline\<close> on a new object.\<close>

definition BezierSpline :: "Vector3f list \<Rightarrow> int \<Rightarrow> failure + BezierSpline" where
  "BezierSpline points res = generate_spline fresh points res"

text \<open>
  \<open>get_point_at_time\<close>: the sample at index \<open>(int)(resolution * time)\<close>. The source rounds
  the product to a float before it converts; the model converts the exact product, which
  is the same index whenever the exact product is a float (as for the times 0, 0.5 and 1
  at resolution 10).
\<close>

definition get_point_at_time :: "BezierSpline \<Rightarrow> real \<Rightarrow> failure + sample" where
  "get_point_at_time s time =
     (if time \<le> 1 \<and> time \<ge> 0
      then elem_at (spline_points s) (trunc (real_of_int (resolution s) * time))
      else Inl AssertionFailed)"

text \<open>
  \<open>get_time_idx\<close>: the loop \<open>for (int t_idx = 0; t_idx < resolution; ++t_idx)\<close> with its
  \<open>break\<close>; \<open>found_t_idx\<close> is the value returned when the loop runs out.
\<close>

function get_time_idx_loop :: "BezierSpline \<Rightarrow> real \<Rightarrow> int \<Rightarrow> int \<Rightarrow> failure + int" where
  "get_time_idx_loop s distance t_idx found_t_idx =
     (if t_idx < resolution s then
        (case elem_at (distance_lut s) t_idx of
           Inl e \<Rightarrow> Inl e
         | Inr cur \<Rightarrow>
             if cur > distance then
               (case elem_at (distance_lut s) (t_idx - 1) of
                  Inl e \<Rightarrow> Inl e
                | Inr prev \<Rightarrow>
                    if \<bar>cur - distance\<bar> < \<bar>prev - distance\<bar> then Inr t_idx
                    else Inr (t_idx - 1))
             else get_time_idx_loop s distance (t_idx + 1) t_idx)
      else Inr found_t_idx)"
  by pat_completeness auto
termination
  by (relation "measure (\<lambda>(s, d, t_idx, found). nat (resolution s - t_idx))") auto

declare get_time_idx_loop.simps [simp del]

definition get_time_idx :: "BezierSpline \<Rightarrow> real \<Rightarrow> failure + int" where
  "get_time_idx s distance = get_time_idx_loop s distance 0 0"

text \<open>
  \<open>get_point_at_distance\<close>. \<open>get_time_idx\<close> returns a float that is used as an index;
  the model keeps the integer. When the two table entries are equal the quotient is an
  infinity or not a number, and the assertion on \<open>diff_frac\<close> fails. The division by
  \<open>resolution\<close> is reached only when \<open>t_idx\<close> differs from it, and \<open>t_idx\<close> is 0 when
  \<open>resolution\<close> is.
\<close>

definition get_point_at_distance :: "BezierSpline \<Rightarrow> real \<Rightarrow> failure + sample" where
  "get_point_at_distance s distance =
     (case get_time_idx s distance of
        Inl e \<Rightarrow> Inl e
      | Inr t_idx \<Rightarrow>
          if t_idx = resolution s then elem_at (spline_points s) t_idx
          else
            (case elem_at (distance_lut s) (t_idx + 1) of
               Inl e \<Rightarrow> Inl e
             | Inr next \<Rightarrow>
                (case elem_at (distance_lut s) t_idx of
                   Inl e \<Rightarrow> Inl e
                 | Inr cur \<Rightarrow>
                     (let distance_diff = next - cur;
                          distance_diff_given = next - distance;
                          diff_frac = distance_diff_given / distance_diff
                      in if distance_diff = 0 then Inl AssertionFailed
                         else if diff_frac \<ge> 0 \<and> diff_frac \<le> 1
                         then f s (Fin ((real_of_int t_idx + diff_frac) / real_of_int (resolution s)))
                         else Inl AssertionFailed))))"

section \<open>The planning service (rrt\_service.cpp)\<close>

type_synonym vec3 = Vector3f

text \<open>\<open>geometry_msgs::Point\<close>: three \<open>float64\<close> coordinates, zero when default-constructed.\<close>

datatype Point = Point (pt_x: real) (pt_y: real) (pt_z: real)

text \<open>
  \<open>waypoints_to_geometry_msgs_points\<close>: the vector is created with \<open>wps.size()\<close>
  default-constructed points, and \<open>std::transform\<close> then appends one converted point per
  waypoint through \<open>std::back_inserter\<close>. \<open>to_point\<close> is the lambda that converts one
  waypoint.
\<close>

definition to_point :: "vec3 \<Rightarrow> Point" where
  "to_point pt = (case pt of (a, b, c) \<Rightarrow> Point a b c)"

definition waypoints_to_geometry_msgs_points :: "vec3 list \<Rightarrow> Point list" where
  "waypoints_to_geometry_msgs_points wps =
     replicate (length wps) (Point 0 0 0) @ map to_point wps"

text \<open>
  \<open>call_get_environment_octomap\<close>: the argument is \<open>response.map.data\<close> after the service
  call (empty when the call failed, since the response starts out empty); the result is the
  null pointer when there is no data.
\<close>

datatype Octomap = Octomap "int list"

definition call_get_environment_octomap :: "int list \<Rightarrow> Octomap option" where
  "call_get_environment_octomap data =
     (if length data = 0 then None else Some (Octomap data))"

text \<open>
  Modelled from the spec: the class \<open>mdi::rrt::RRT\<close> is declared outside the translated
  sources. The handlers use five of its operations, which are parameters here, over an
  arbitrary tree state \<open>'r\<close>. By the specification one growth iteration creates at most
  one node and fires the node-created event synchronously, so \<open>grow1\<close> yields the tree
  after the iteration and the position of the node it created, if it created one: the
  \<open>new_point\<close> the callback is called with (the callback does not read its \<open>parent\<close>
  argument).
\<close>

record 'r RRT =
  assign_octomap :: "'r \<Rightarrow> Octomap \<Rightarrow> 'r"
  run :: "'r \<Rightarrow> vec3 list option"
  grow1 :: "'r \<Rightarrow> 'r \<times> vec3 option"
  waypoints_from_newest_node :: "'r \<Rightarrow> vec3 list option"
  get_waypoints_from_nearsest_node_to :: "'r \<Rightarrow> vec3 \<Rightarrow> vec3 list option"

text \<open>
  \<open>rrt_find_path_handler\<close>: \<open>rrt\<close> is the tree that the builder returns for the request.
  The result is the returned \<open>success\<close> and \<open>response.waypoints\<close>.
\<close>

definition rrt_find_path_handler :: "'r RRT \<Rightarrow> 'r \<Rightarrow> int list \<Rightarrow> bool \<times> Point list" where
  "rrt_find_path_handler ops rrt map_data =
     (let octomap_ptr = call_get_environment_octomap map_data;
          rrt' = (case octomap_ptr of None \<Rightarrow> rrt | Some m \<Rightarrow> assign_octomap ops rrt m)
      in case run ops rrt' of
           Some path \<Rightarrow> (True, waypoints_to_geometry_msgs_points path)
         | None \<Rightarrow> (False, []))"

text \<open>
  \<open>nbv_handler\<close>. The response, and the locals that the callback and the loop share.
  \<open>best_gain\<close> starts at minus infinity, which is \<open>None\<close> here. \<open>grow_calls\<close> is not in the
  source: it counts the calls of \<open>grow1\<close>, so that statements can speak about them.
\<close>

record NBV_Response =
  waypoints :: "Point list"
  found_nbv_with_sufficent_gain :: bool

record 'r nbv_state =
  tree :: 'r
  best_gain :: "real option"
  best_point :: vec3
  found_suitable_nbv :: bool
  response :: NBV_Response
  success :: bool
  grow_calls :: nat

text \<open>
  The node-created callback. \<open>gain_of_fov\<close> (declared outside the translated sources) is a
  parameter: the field of view is built from \<open>new_point\<close> and constants of the request, so
  the gain is a function of the map and \<open>new_point\<close>. The map pointer is dereferenced
  without a test.
\<close>

definition on_new_node ::
  "(Octomap \<Rightarrow> vec3 \<Rightarrow> real) \<Rightarrow> Octomap option \<Rightarrow> real \<Rightarrow> 'r nbv_state \<Rightarrow> vec3
     \<Rightarrow> failure + 'r nbv_state" where
  "on_new_node gain_of_fov octomap_environment_ptr threshold st new_point =
     (case octomap_environment_ptr of
        None \<Rightarrow> Inl NullDereference
      | Some m \<Rightarrow>
          (let gain = gain_of_fov m new_point;
               st1 = (if (case best_gain st of None \<Rightarrow> True | Some b \<Rightarrow> gain > b)
                      then st\<lparr>best_gain := Some gain, best_point := new_point\<rparr> else st);
               st2 = (if gain \<ge> threshold then st1\<lparr>found_suitable_nbv := True\<rparr> else st1)
           in Inr st2))"

text \<open>
  The loop \<open>for (std::size_t i = 0; i < max_iterations; ++i)\<close>: one \<open>grow1\<close>, during which
  the callback runs if a node was created, then the test of \<open>found_suitable_nbv\<close> with its
  \<open>break\<close>.
\<close>

function nbv_loop ::
  "'r RRT \<Rightarrow> (Octomap \<Rightarrow> vec3 \<Rightarrow> real) \<Rightarrow> Octomap option \<Rightarrow> real \<Rightarrow> nat \<Rightarrow> nat
     \<Rightarrow> 'r nbv_state \<Rightarrow> failure + 'r nbv_state" where
  "nbv_loop ops gain_of_fov env threshold max_iterations i st =
     (if i < max_iterations then
        (let (tree', created) = grow1 ops (tree st);
             st1 = st\<lparr>tree := tree', grow_calls := grow_calls st + 1\<rparr>
         in case (case created of
                    None \<Rightarrow> Inr st1
                  | Some new_point \<Rightarrow> on_new_node gain_of_fov env threshold st1 new_point) of
              Inl e \<Rightarrow> Inl e
            | Inr st2 \<Rightarrow>
                if found_suitable_nbv st2 then
                  (case waypoints_from_newest_node ops (tree st2) of
                     Some path \<Rightarrow>
                       Inr (st2\<lparr>response := \<lparr>waypoints = waypoints_to_geometry_msgs_points path,
                                              found_nbv_with_sufficent_gain = True\<rparr>,
                                 success := True\<rparr>)
                   | None \<Rightarrow>
                       Inr (st2\<lparr>response := (response st2)\<lparr>found_nbv_with_sufficent_gain := False\<rparr>,
                                 success := False\<rparr>))
                else nbv_loop ops gain_of_fov env threshold max_iterations (i + 1) st2)
      else Inr st)"
  by pat_completeness auto
termination
  by (relation "measure (\<lambda>(ops, g, env, thr, max_iterations, i, st). max_iterations - i)") auto

declare nbv_loop.simps [simp del]

definition nbv_handler ::
  "'r RRT \<Rightarrow> (Octomap \<Rightarrow> vec3 \<Rightarrow> real) \<Rightarrow> 'r \<Rightarrow> int list \<Rightarrow> real \<Rightarrow> nat
     \<Rightarrow> failure + 'r nbv_state" where
  "nbv_handler ops gain_of_fov rrt map_data threshold max_iterations =
     (let octomap_environment_ptr = call_get_environment_octomap map_data;
          rrt' = (case octomap_environment_ptr of
                    None \<Rightarrow> rrt | Some m \<Rightarrow> assign_octomap ops rrt m);
          st0 = \<lparr>tree = rrt', best_gain = None, best_point = (0, 0, 0),
                 found_suitable_nbv = False,
                 response = \<lparr>waypoints = [], found_nbv_with_sufficent_gain = False\<rparr>,
                 success = False, grow_calls = 0\<rparr>
      in case nbv_loop ops gain_of_fov octomap_environment_ptr threshold max_iterations 0 st0 of
           Inl e \<Rightarrow> Inl e
         | Inr st \<Rightarrow>
             if \<not> success st then
               (case get_waypoints_from_nearsest_node_to ops (tree st) (best_point st) of
                  Some path \<Rightarrow>
                    Inr (st\<lparr>response := \<lparr>waypoints = waypoints_to_geometry_msgs_points path,
                                          found_nbv_with_sufficent_gain = False\<rparr>\<rparr>)
                | None \<Rightarrow> Inr st)
             else Inr st)"

subsection \<open>Growth seen from outside\<close>

text \<open>
  The tree after \<open>k\<close> calls of \<open>grow1\<close>, the node that call number \<open>k\<close> (counted from 0)
  creates, and the nodes created by the first \<open>n\<close> calls in order.
\<close>

primrec tree_after :: "'r RRT \<Rightarrow> 'r \<Rightarrow> nat \<Rightarrow> 'r" where
  "tree_after ops r 0 = r"
| "tree_after ops r (Suc k) = fst (grow1 ops (tree_after ops r k))"

definition created_at :: "'r RRT \<Rightarrow> 'r \<Rightarrow> nat \<Rightarrow> vec3 option" where
  "created_at ops r k = snd (grow1 ops (tree_after ops r k))"

definition visited :: "'r RRT \<Rightarrow> 'r \<Rightarrow> nat \<Rightarrow> vec3 list" where
  "visited ops r n = List.map_filter (created_at ops r) [0..<n]"

text \<open>
  The highest-scoring entry of a list with ties going to the one seen first: no entry
  scores higher, and every earlier entry scores strictly lower.
\<close>

definition is_first_best :: "(vec3 \<Rightarrow> real) \<Rightarrow> vec3 list \<Rightarrow> nat \<Rightarrow> bool" where
  "is_first_best g ps i \<longleftrightarrow>
     i < length ps \<and> (\<forall>j < length ps. g (ps ! j) \<le> g (ps ! i)) \<and> (\<forall>j < i. g (ps ! j) < g (ps ! i))"

text \<open>
  What the callback has recorded after the nodes \<open>ps\<close>: nothing yet, or the score and
  position of the best entry.
\<close>

definition best_so_far :: "(vec3 \<Rightarrow> real) \<Rightarrow> vec3 list \<Rightarrow> real option \<Rightarrow> vec3 \<Rightarrow> bool" where
  "best_so_far g ps bg bp \<longleftrightarrow>
     (ps = [] \<and> bg = None \<and> bp = (0, 0, 0)) \<or>
     (\<exists>b. is_first_best g ps b \<and> bg = Some (g (ps ! b)) \<and> bp = ps ! b)"

subsection \<open>A scripted tree\<close>

text \<open>
  A tree for concrete runs. Its state is the chain of nodes created so far, root first,
  and the outcomes of the growth iterations still to come: the position of the new node, or
  nothing when the iteration is a no-op. Each new node hangs under the newest one, so the
  path to a node is the chain up to it. \<open>run\<close> grows through the whole script and reports
  the chain when a node was created.
\<close>

type_synonym scripted_tree = "vec3 list \<times> vec3 option list"

fun dist2 :: "vec3 \<Rightarrow> vec3 \<Rightarrow> real" where
  "dist2 (a, b, c) (a', b', c') = (a - a') * (a - a') + (b - b') * (b - b') + (c - c') * (c - c')"

fun chain_to_nearest :: "vec3 list \<Rightarrow> vec3 \<Rightarrow> vec3 list" where
  "chain_to_nearest [] p = []"
| "chain_to_nearest (n # ns) p =
     (if list_all (\<lambda>m. dist2 n p \<le> dist2 m p) ns then [n] else n # chain_to_nearest ns p)"

fun scripted_grow1 :: "scripted_tree \<Rightarrow> scripted_tree \<times> vec3 option" where
  "scripted_grow1 (nodes, []) = ((nodes, []), None)"
| "scripted_grow1 (nodes, None # script) = ((nodes, script), None)"
| "scripted_grow1 (nodes, Some p # script) = ((nodes @ [p], script), Some p)"

definition scripted_rrt :: "scripted_tree RRT" where
  "scripted_rrt =
     \<lparr>assign_octomap = (\<lambda>r m. r),
      run = (\<lambda>(nodes, script).
               case List.map_filter id script of [] \<Rightarrow> None | ps \<Rightarrow> Some (nodes @ ps)),
      grow1 = scripted_grow1,
      waypoints_from_newest_node = (\<lambda>(nodes, script). if nodes = [] then None else Some nodes),
      get_waypoints_from_nearsest_node_to =
        (\<lambda>(nodes, script) p. if nodes = [] then None else Some (chain_to_nearest nodes p))\<rparr>"

text \<open>A gain for concrete runs: the x coordinate of the new node.\<close>

definition gain_x :: "Octomap \<Rightarrow> vec3 \<Rightarrow> real" where
  "gain_x m p = fst p"

section \<open>Properties of the spline\<close>

subsection \<open>The integer square root and the norm\<close>

lemma floor_sqrt_bounds: "floor_sqrt n * floor_sqrt n \<le> n \<and> n < (floor_sqrt n + 1) * (floor_sqrt n + 1)"
proof (induction n)
  case 0
  show ?case by simp
next
  case (Suc n)
  then show ?case by (auto simp: Let_def)
qed

lemma floor_sqrt_real:
  assumes "0 \<le> q"
  shows "\<lfloor>sqrt q\<rfloor> = int (floor_sqrt (nat \<lfloor>q\<rfloor>))"
proof -
  define n where "n = nat \<lfloor>q\<rfloor>"
  define r where "r = floor_sqrt n"
  have n_le: "real n \<le> q" and q_lt: "q < real n + 1"
    using assms unfolding n_def by linarith+
  from floor_sqrt_bounds [of n] have lo: "r * r \<le> n" and hi: "n < (r + 1) * (r + 1)"
    unfolding r_def by simp_all
  have "real (r * r) \<le> real n" using lo by (simp only: of_nat_le_iff)
  then have "(real r)\<^sup>2 \<le> q" using n_le by (simp add: power2_eq_square)
  then have 1: "real r \<le> sqrt q" by (simp add: real_le_rsqrt)
  have "n + 1 \<le> (r + 1) * (r + 1)" using hi by simp
  then have "real (n + 1) \<le> real ((r + 1) * (r + 1))" by (simp only: of_nat_le_iff)
  then have "real n + 1 \<le> (real r + 1)\<^sup>2" by (simp add: power2_eq_square algebra_simps)
  then have "q < (real r + 1)\<^sup>2" using q_lt by linarith
  then have 2: "sqrt q < real r + 1"
    by (intro real_less_lsqrt) simp_all
  show ?thesis unfolding n_def[symmetric] r_def[symmetric]
    using 1 2 by (intro floor_unique) simp_all
qed

text \<open>The computable equation for \<open>add_norm\<close>.\<close>

lemma add_norm_code [code]:
  "add_norm a (x, y, z) =
     (let q = x * x + y * y + z * z; r = int (floor_sqrt (nat \<lfloor>q\<rfloor>))
      in if 0 \<le> a \<or> real_of_int (a * a) \<le> q then a + r
         else a + (if real_of_int (r * r) = q then r else r + 1))"
proof -
  define q where "q = x * x + y * y + z * z"
  define r where "r = int (floor_sqrt (nat \<lfloor>q\<rfloor>))"
  have q0: "0 \<le> q" unfolding q_def by simp
  have r_def': "r = \<lfloor>sqrt q\<rfloor>" unfolding r_def using floor_sqrt_real [OF q0] by simp
  have lo: "real_of_int r \<le> sqrt q" and hi: "sqrt q < real_of_int r + 1"
    unfolding r_def' by linarith+
  have unf: "add_norm a (x, y, z) = trunc (real_of_int a + sqrt q)"
    by (simp add: add_norm_def q_def)
  show ?thesis
  proof (cases "0 \<le> a \<or> real_of_int (a * a) \<le> q")
    case True
    have "0 \<le> real_of_int a + sqrt q"
    proof (cases "0 \<le> a")
      case True
      then have "0 \<le> real_of_int a" by simp
      moreover have "0 \<le> sqrt q" using q0 by simp
      ultimately show ?thesis by linarith
    next
      case False
      with True have "(real_of_int a)\<^sup>2 \<le> q" by (simp add: power2_eq_square)
      then have "\<bar>real_of_int a\<bar> \<le> sqrt q" by (simp add: real_le_rsqrt)
      then show ?thesis by linarith
    qed
    then have "trunc (real_of_int a + sqrt q) = a + r"
      unfolding trunc_def r_def' by simp
    with True show ?thesis
      unfolding unf by (simp add: Let_def q_def[symmetric] r_def[symmetric])
  next
    case False
    then have a_neg: "a < 0" and lt: "q < (real_of_int a)\<^sup>2"
      by (simp_all add: power2_eq_square)
    have "sqrt q < \<bar>real_of_int a\<bar>" using lt q0
      by (metis real_sqrt_abs real_sqrt_less_iff)
    then have neg: "real_of_int a + sqrt q < 0" using a_neg by simp
    have ceil: "\<lceil>sqrt q\<rceil> = (if real_of_int (r * r) = q then r else r + 1)"
    proof (cases "real_of_int (r * r) = q")
      case True
      have "0 \<le> r" unfolding r_def by simp
      then have "sqrt q = real_of_int r" using True
        by (metis of_int_0_le_iff of_int_mult abs_of_nonneg real_sqrt_abs2)
      then show ?thesis using True by simp
    next
      case False
      have "sqrt q \<noteq> real_of_int r"
      proof
        assume "sqrt q = real_of_int r"
        then have "q = real_of_int r * real_of_int r" using q0
          by (metis real_sqrt_mult_self abs_of_nonneg)
        with False show False by simp
      qed
      with lo have "real_of_int r < sqrt q" by simp
      with hi have "\<lceil>sqrt q\<rceil> = r + 1" by (intro ceiling_unique) simp_all
      with False show ?thesis by simp
    qed
    have "\<lceil>sqrt q + real_of_int a\<rceil> = \<lceil>sqrt q\<rceil> + a" by (rule ceiling_add_of_int)
    then have "\<lceil>real_of_int a + sqrt q\<rceil> = a + \<lceil>sqrt q\<rceil>" by (simp add: add.commute)
    then have "trunc (real_of_int a + sqrt q) = a + \<lceil>sqrt q\<rceil>"
      unfolding trunc_def using neg by simp
    with False ceil show ?thesis
      unfolding unf by (simp add: Let_def q_def[symmetric] r_def[symmetric])
  qed
qed

subsection \<open>Powers of a scalar\<close>

lemma fpow_Fin [simp]: "fpow (Fin a) n = Fin (a ^ n)"
  by (cases n) simp_all

lemma fpow_NaN: "0 < n \<Longrightarrow> fpow NaN n = NaN"
  by (cases n) simp_all

subsection \<open>Construction\<close>

text \<open>
  When the table and the control points have \<open>size\<close> entries, \<open>f\<close> reads in range; the
  sampling loop then returns, for a resolution below the largest \<open>int\<close>, and only appends
  to \<open>spline_points\<close>.
\<close>

lemma f_loop_total:
  assumes "length (binomial_lut s) = size_m s" and "length (input_points s) = size_m s"
  shows "\<exists>v. f_loop s t i acc = Inr v"
  using assms
proof (induction s t i acc rule: f_loop.induct)
  case (1 s t i spline_point)
  show ?case
  proof (cases "i < size_m s")
    case True
    with 1 show ?thesis
      by (subst f_loop.simps) (simp add: elem_at_def Let_def)
  next
    case False
    then have "f_loop s t i spline_point = Inr spline_point"
      by (subst f_loop.simps) simp
    then show ?thesis by blast
  qed
qed

lemma sample_loop_result:
  assumes "length (binomial_lut s) = size_m s" and "length (input_points s) = size_m s"
    and "resolution s < INT_MAX"
  shows "\<exists>s'. sample_loop s t = Inr s' \<and> input_points s' = input_points s \<and>
           resolution s' = resolution s \<and> size_m s' = size_m s \<and>
           binomial_lut s' = binomial_lut s \<and> distance_lut s' = distance_lut s \<and>
           length (spline_points s') = length (spline_points s) + nat (resolution s + 1 - t)"
  using assms
proof (induction s t rule: sample_loop.induct)
  case (1 s t)
  show ?case
  proof (cases "t \<le> resolution s")
    case True
    from f_loop_total [OF 1(2,3)] obtain p
      where p: "f s (int_quotient t (resolution s)) = Inr p"
      unfolding f_def by blast
    from True 1(4) have nomax: "t \<noteq> INT_MAX" by simp
    from 1(1) [OF True p nomax] 1(2,3,4) True p nomax show ?thesis
      by (subst sample_loop.simps) (auto simp: nat_add_distrib)
  next
    case False
    then show ?thesis by (subst sample_loop.simps) simp
  qed
qed

text \<open>The state in which the constructor enters the sampling loop.\<close>

lemma construct_unfold:
  "BezierSpline points res =
     sample_loop \<lparr>input_points = points, resolution = res, size_m = length points,
                  binomial_lut = map (binomial_coefficient (length points)) [0..<length points],
                  distance_lut = [0], spline_points = []\<rparr> 0"
  by (cases "points = []")
     (simp_all add: BezierSpline_def generate_spline_def Let_def generate_binomial_lut_def
        generate_distance_lut_def fresh_def)

text \<open>What the constructor builds, for every input with a resolution below the largest \<open>int\<close>.\<close>

lemma construct_result:
  assumes "res < INT_MAX"
  shows "\<exists>s. BezierSpline points res = Inr s \<and> input_points s = points \<and> resolution s = res \<and>
           size_m s = length points \<and>
           binomial_lut s = map (binomial_coefficient (length points)) [0..<length points] \<and>
           distance_lut s = [0] \<and> length (spline_points s) = nat (res + 1)"
proof -
  let ?s0 = "\<lparr>input_points = points, resolution = res, size_m = length points,
              binomial_lut = map (binomial_coefficient (length points)) [0..<length points],
              distance_lut = [0], spline_points = []\<rparr>"
  from sample_loop_result [of ?s0 0] assms show ?thesis
    unfolding construct_unfold [of points res] by auto
qed

text \<open>
  With the largest \<open>int\<close> as resolution the loop counter is stepped beyond it, after the
  last sample.
\<close>

lemma sample_loop_overflow:
  assumes "length (binomial_lut s) = size_m s" and "length (input_points s) = size_m s"
    and "INT_MAX \<le> resolution s" and "t \<le> INT_MAX"
  shows "sample_loop s t = Inl SignedOverflow"
  using assms
proof (induction s t rule: sample_loop.induct)
  case (1 s t)
  from f_loop_total [OF 1(2,3)] obtain p
    where p: "f s (int_quotient t (resolution s)) = Inr p"
    unfolding f_def by blast
  have le: "t \<le> resolution s" using 1(4,5) by simp
  show ?case
  proof (cases "t = INT_MAX")
    case True
    with le p show ?thesis by (subst sample_loop.simps) simp
  next
    case False
    with 1(5) have "t + 1 \<le> INT_MAX" by simp
    with 1(1) [OF le p False] 1(2,3,4) le p False show ?thesis
      by (subst sample_loop.simps) simp
  qed
qed

lemma construct_overflow: "INT_MAX \<le> res \<Longrightarrow> BezierSpline points res = Inl SignedOverflow"
  unfolding construct_unfold by (rule sample_loop_overflow) simp_all

subsection \<open>What the samples are\<close>

text \<open>
  The sum that \<open>f\<close> computes for a parameter that is a number, its value at the two ends
  of the parameter range, its value for the parameter that is not a number, and the
  samples of a constructed spline.
\<close>

lemma f_loop_closed_form:
  assumes "length (binomial_lut s) = size_m s" and "length (input_points s) = size_m s"
  shows "f_loop s (Fin t) i (Finite acc) =
           Inr (Finite (foldl vadd acc
                  (map (\<lambda>i. smul (real (binomial_lut s ! i) * t ^ i * (1 - t) ^ (size_m s - i))
                                   (input_points s ! i))
                       [i..<size_m s])))"
  using assms
proof (induction n \<equiv> "size_m s - i" arbitrary: i acc)
  case 0
  then show ?case by (subst f_loop.simps) simp
next
  case (Suc n)
  then have lt: "i < size_m s" and n: "n = size_m s - (i + 1)" by simp_all
  from Suc.hyps(1) [OF n Suc.prems] lt Suc.prems show ?case
    by (subst f_loop.simps) (simp add: elem_at_def upt_conv_Cons)
qed

lemma vadd_smul_zero: "vadd v (smul 0 p) = v"
  by (cases v; cases p) simp

lemma f_loop_at_one:
  assumes "length (binomial_lut s) = size_m s" and "length (input_points s) = size_m s"
  shows "f_loop s (Fin 1) i (Finite acc) = Inr (Finite acc)"
proof (induction n \<equiv> "size_m s - i" arbitrary: i acc)
  case 0
  then show ?case by (subst f_loop.simps) simp
next
  case (Suc n)
  then have lt: "i < size_m s" and n: "n = size_m s - (i + 1)" by simp_all
  have w: "real (binomial_lut s ! i) * 0 ^ (size_m s - i) = 0"
    using lt by simp
  from Suc.hyps(1) [OF n] lt assms show ?case
    by (subst f_loop.simps) (simp add: w vadd_smul_zero elem_at_def)
qed

lemma f_loop_at_zero:
  assumes "length (binomial_lut s) = size_m s" and "length (input_points s) = size_m s"
    and "0 < i"
  shows "f_loop s (Fin 0) i (Finite acc) = Inr (Finite acc)"
  using assms(3)
proof (induction n \<equiv> "size_m s - i" arbitrary: i acc)
  case 0
  then show ?case by (subst f_loop.simps) simp
next
  case (Suc n)
  then have lt: "i < size_m s" and n: "n = size_m s - (i + 1)" by simp_all
  have w: "real (binomial_lut s ! i) * 0 ^ i = 0"
    using Suc.prems by simp
  from Suc.hyps(1) [OF n] lt assms(1,2) show ?case
    by (subst f_loop.simps) (simp add: w vadd_smul_zero elem_at_def)
qed

lemma f_at_zero:
  assumes "length (binomial_lut s) = size_m s" and "length (input_points s) = size_m s"
    and "0 < size_m s"
  shows "f s (Fin 0) = Inr (Finite (smul (real (binomial_lut s ! 0)) (input_points s ! 0)))"
proof -
  obtain a b c where p: "input_points s ! 0 = (a, b, c)" by (cases "input_points s ! 0")
  show ?thesis
    unfolding f_def
    using assms p f_loop_at_zero [OF assms(1,2), of 1]
    by (subst f_loop.simps) (simp add: elem_at_def vzero_def)
qed

lemma f_loop_all_nan:
  assumes "length (binomial_lut s) = size_m s" and "length (input_points s) = size_m s"
  shows "f_loop s t i AllNaN = Inr AllNaN"
proof (induction n \<equiv> "size_m s - i" arbitrary: i)
  case 0
  then show ?case by (subst f_loop.simps) simp
next
  case (Suc n)
  then have lt: "i < size_m s" and n: "n = size_m s - (i + 1)" by simp_all
  from Suc.hyps(1) [OF n] lt assms show ?case
    by (subst f_loop.simps) (simp add: elem_at_def Let_def)
qed

lemma f_at_nan:
  assumes "length (binomial_lut s) = size_m s" and "length (input_points s) = size_m s"
  shows "f s NaN = Inr (if size_m s = 0 then Finite vzero else AllNaN)"
proof (cases "size_m s = 0")
  case True
  then show ?thesis unfolding f_def by (subst f_loop.simps) simp
next
  case False
  then obtain k where k: "size_m s = Suc k" by (cases "size_m s") simp_all
  have w: "fpow NaN (size_m s) = NaN"
    using False by (simp add: fpow_NaN)
  from False assms f_loop_all_nan [OF assms, of NaN 1] show ?thesis
    unfolding f_def by (subst f_loop.simps) (simp add: elem_at_def Let_def w)
qed

lemma f_spline_points_irrelevant:
  "f_loop (s\<lparr>spline_points := xs\<rparr>) t i acc = f_loop s t i acc"
proof (induction n \<equiv> "size_m s - i" arbitrary: i acc)
  case 0
  then show ?case
    by (subst f_loop.simps, subst (2) f_loop.simps) simp
next
  case (Suc n)
  then have "n = size_m s - (i + 1)" by simp
  from Suc.hyps(1) [OF this] show ?case
    by (subst f_loop.simps, subst (2) f_loop.simps) (simp split: sum.splits add: Let_def)
qed

lemma sample_loop_samples:
  assumes "length (binomial_lut s) = size_m s" and "length (input_points s) = size_m s"
    and "resolution s < INT_MAX"
  shows "\<exists>s'. sample_loop s t = Inr s' \<and>
           take (length (spline_points s)) (spline_points s') = spline_points s \<and>
           (\<forall>k. t \<le> k \<and> k \<le> resolution s \<longrightarrow>
              f s (int_quotient k (resolution s)) =
                Inr (spline_points s' ! (length (spline_points s) + nat (k - t))))"
  using assms
proof (induction s t rule: sample_loop.induct)
  case (1 s t)
  show ?case
  proof (cases "t \<le> resolution s")
    case True
    from f_loop_total [OF 1(2,3)] obtain p
      where p: "f s (int_quotient t (resolution s)) = Inr p"
      unfolding f_def by blast
    from True 1(4) have nomax: "t \<noteq> INT_MAX" by simp
    let ?s1 = "s\<lparr>spline_points := spline_points s @ [p]\<rparr>"
    have f_eq: "f ?s1 x = f s x" for x
      by (simp add: f_def f_spline_points_irrelevant)
    from 1(1) [OF True p nomax] 1(2,3,4) obtain s' where s': "sample_loop ?s1 (t + 1) = Inr s'"
      "take (Suc (length (spline_points s))) (spline_points s') = spline_points s @ [p]"
      "\<forall>k. t + 1 \<le> k \<and> k \<le> resolution s \<longrightarrow>
         f s (int_quotient k (resolution s)) =
           Inr (spline_points s' ! (Suc (length (spline_points s)) + nat (k - (t + 1))))"
      by (auto simp: f_eq)
    have res: "sample_loop s t = Inr s'"
      using True p s'(1) nomax by (subst sample_loop.simps) simp
    have tk: "take (length (spline_points s)) (spline_points s') = spline_points s"
      using s'(2)
      by (metis append_eq_conv_conj length_append_singleton order_refl take_all take_take min.absorb1 le_SucI)
    have at_t: "spline_points s' ! length (spline_points s) = p"
      using s'(2)
      by (metis lessI nth_append_length nth_take)
    have "f s (int_quotient k (resolution s)) =
            Inr (spline_points s' ! (length (spline_points s) + nat (k - t)))"
      if k: "t \<le> k \<and> k \<le> resolution s" for k
    proof (cases "k = t")
      case True
      with p at_t show ?thesis by simp
    next
      case False
      with k have k': "t + 1 \<le> k \<and> k \<le> resolution s" by simp
      then have "Suc (length (spline_points s)) + nat (k - (t + 1)) =
                 length (spline_points s) + nat (k - t)" by linarith
      with s'(3) k' show ?thesis by metis
    qed
    with res tk show ?thesis by blast
  next
    case False
    then show ?thesis by (subst sample_loop.simps) auto
  qed
qed

lemma constructed_samples:
  assumes "BezierSpline points res = Inr s" and "res < INT_MAX" and "0 \<le> k" and "k \<le> res"
  shows "f s (int_quotient k res) = Inr (spline_points s ! nat k)"
proof -
  let ?s0 = "\<lparr>input_points = points, resolution = res, size_m = length points,
              binomial_lut = map (binomial_coefficient (length points)) [0..<length points],
              distance_lut = [0], spline_points = []\<rparr>"
  from assms(1) have run: "sample_loop ?s0 0 = Inr s"
    by (simp add: construct_unfold)
  from sample_loop_samples [of ?s0 0] run assms(2,3,4)
  have "f ?s0 (int_quotient k res) = Inr (spline_points s ! nat k)"
    by auto
  moreover from sample_loop_result [of ?s0 0] run assms(2)
  have "s = ?s0\<lparr>spline_points := spline_points s\<rparr>" by auto
  then have "f s x = f ?s0 x" for x
    by (metis f_def f_spline_points_irrelevant)
  ultimately show ?thesis by simp
qed

lemma constructed_f_closed_form:
  assumes "BezierSpline points res = Inr s" and "res < INT_MAX"
  shows "f s (Fin t) =
           Inr (Finite (foldl vadd vzero
                  (map (\<lambda>i. smul (real (length points choose i) * t ^ i *
                                        (1 - t) ^ (length points - i)) (points ! i))
                       [0..<length points])))"
proof -
  from construct_result [OF assms(2), of points] assms(1)
  have flds: "input_points s = points" "size_m s = length points"
    "binomial_lut s = map (binomial_coefficient (length points)) [0..<length points]"
    by auto
  have "f s (Fin t) = Inr (Finite (foldl vadd vzero
                  (map (\<lambda>i. smul (real (binomial_lut s ! i) * t ^ i * (1 - t) ^ (size_m s - i))
                                   (input_points s ! i))
                       [0..<size_m s])))"
    unfolding f_def by (rule f_loop_closed_form) (simp_all add: flds)
  also have "map (\<lambda>i. smul (real (binomial_lut s ! i) * t ^ i * (1 - t) ^ (size_m s - i))
                                   (input_points s ! i)) [0..<size_m s] =
             map (\<lambda>i. smul (real (length points choose i) * t ^ i *
                                        (1 - t) ^ (length points - i)) (points ! i))
                       [0..<length points]"
    by (simp add: flds binomial_coefficient_def)
  finally show ?thesis .
qed

lemma constructed_endpoints:
  assumes "points \<noteq> []" and "0 < res" and "res < INT_MAX"
  shows "\<exists>s. BezierSpline points res = Inr s \<and>
           get_point_at_time s 0 = Inr (Finite (hd points)) \<and>
           get_point_at_time s 1 = Inr (Finite (0, 0, 0))"
proof -
  from construct_result [OF assms(3), of points] obtain s where
    s: "BezierSpline points res = Inr s" "input_points s = points" "resolution s = res"
       "size_m s = length points"
       "binomial_lut s = map (binomial_coefficient (length points)) [0..<length points]"
       "length (spline_points s) = nat (res + 1)"
    by auto
  have lens: "length (binomial_lut s) = size_m s" "length (input_points s) = size_m s"
    "0 < size_m s"
    using s assms(1) by simp_all
  have q0: "int_quotient 0 res = Fin 0" and q1: "int_quotient res res = Fin 1"
    using assms(2) by (simp_all add: int_quotient_def)
  obtain a b c where p0: "points ! 0 = (a, b, c)" by (cases "points ! 0")
  have "f s (Fin 0) = Inr (Finite (points ! 0))"
    using f_at_zero [OF lens] s(2,4,5) assms(1) p0
    by (simp add: binomial_coefficient_def)
  moreover have "f s (Fin 0) = Inr (spline_points s ! 0)"
    using constructed_samples [OF s(1) assms(3), of 0] assms(2) q0 by simp
  ultimately have first: "spline_points s ! 0 = Finite (hd points)"
    using assms(1) by (simp add: hd_conv_nth)
  have "f s (Fin 1) = Inr (Finite vzero)"
    unfolding f_def by (rule f_loop_at_one [OF lens(1,2)])
  moreover have "f s (Fin 1) = Inr (spline_points s ! nat res)"
    using constructed_samples [OF s(1) assms(3), of res] assms(2) q1 by simp
  ultimately have last: "spline_points s ! nat res = Finite (0, 0, 0)"
    by (simp add: vzero_def)
  have "get_point_at_time s 0 = Inr (Finite (hd points))"
    using first s(3,6) assms(2) by (simp add: get_point_at_time_def elem_at_def trunc_def)
  moreover have "get_point_at_time s 1 = Inr (Finite (0, 0, 0))"
    using last s(3,6) assms(2) by (simp add: get_point_at_time_def elem_at_def trunc_def)
  ultimately show ?thesis using s(1) by blast
qed

text \<open>
  Resolution 0: one sample, at the origin when there is no control point, and with
  coordinates that are not numbers otherwise.
\<close>

lemma constructed_zero_resolution:
  "BezierSpline points 0 =
     Inr \<lparr>input_points = points, resolution = 0, size_m = length points,
          binomial_lut = map (binomial_coefficient (length points)) [0..<length points],
          distance_lut = [0],
          spline_points = [if points = [] then Finite (0, 0, 0) else AllNaN]\<rparr>"
proof -
  let ?s0 = "\<lparr>input_points = points, resolution = 0, size_m = length points,
              binomial_lut = map (binomial_coefficient (length points)) [0..<length points],
              distance_lut = [0], spline_points = []\<rparr>"
  have fn: "f ?s0 NaN = Inr (if points = [] then Finite (0, 0, 0) else AllNaN)"
    using f_at_nan [of ?s0] by (simp add: vzero_def)
  show ?thesis
    unfolding construct_unfold
    by (subst sample_loop.simps, subst sample_loop.simps) (simp add: int_quotient_def fn)
qed

text \<open>
  Scenario A at \<open>t = 0.5\<close> for any content of the table: the sample is (1,1,0) only for
  the entries 4 and 2 in the second and third place.
\<close>

lemma scenario_A_any_table:
  assumes "input_points s = [(0, 0, 0), (1, 2, 0), (2, 0, 0)]" and "size_m s = 3"
    and "binomial_lut s = [b0, b1, b2]"
  shows "f s (Fin (1 / 2)) = Inr (Finite ((real b1 + 2 * real b2) / 8, real b1 / 4, 0))"
proof -
  have up: "[0..<3] = [0, 1, 2]" by (simp add: upt_conv_Cons eval_nat_numeral)
  have "f s (Fin (1 / 2)) =
          Inr (Finite (foldl vadd vzero
                 (map (\<lambda>i. smul (real (binomial_lut s ! i) * (1 / 2) ^ i *
                                  (1 - 1 / 2) ^ (size_m s - i)) (input_points s ! i))
                      [0..<size_m s])))"
    unfolding f_def by (rule f_loop_closed_form) (simp_all add: assms)
  also have "\<dots> = Inr (Finite ((real b1 + 2 * real b2) / 8, real b1 / 4, 0))"
    by (simp add: assms up vzero_def eval_nat_numeral)
  finally show ?thesis .
qed

text \<open>
  The accumulator of \<open>generate_distance_lut\<close> is an \<open>int\<close>: three samples that are
  the square root of 2 apart give the entries 1 and 2.
\<close>

lemma distance_loop_truncates:
  "distance_loop [Finite (0, 0, 0), Finite (1, 1, 0), Finite (2, 2, 0)] 0 = Inr [1, 2]"
  by code_simp

lemma generate_binomial_lut_length:
  "length (binomial_lut (generate_binomial_lut s)) = length (binomial_lut s) + size_m s"
  by (simp add: generate_binomial_lut_def)

text \<open>
  A rebuild with a number of control points that differs from the size of a table that is
  not empty fails the assertion.
\<close>

lemma rebuild_assertion_fails:
  assumes "length (binomial_lut s) \<noteq> length points" and "binomial_lut s \<noteq> []"
  shows "generate_spline s points res = Inl AssertionFailed"
  using assms by (simp add: generate_spline_def Let_def generate_binomial_lut_def)

text \<open>
  On a constructed spline with a positive resolution every distance query reads
  \<open>distance_lut\<close> outside its single entry.
\<close>

lemma constructed_distance_query:
  assumes "BezierSpline points res = Inr s" and "0 < res"
  shows "get_point_at_distance s d = Inl OutOfBounds"
proof -
  from assms(1) construct_overflow [of res points] have res: "res < INT_MAX"
    by (cases "res < INT_MAX") simp_all
  from construct_result [OF res, of points] assms(1)
  have lut: "distance_lut s = [0]" and r: "resolution s = res" by auto
  show ?thesis
  proof (cases "d < 0")
    case True
    with lut r assms(2) have "get_time_idx s d = Inl OutOfBounds"
      by (simp add: get_time_idx_def get_time_idx_loop.simps [of s d 0] elem_at_def)
    then show ?thesis by (simp add: get_point_at_distance_def)
  next
    case False
    show ?thesis
    proof (cases "res = 1")
      case True
      with False lut r have "get_time_idx s d = Inr 0"
        by (simp add: get_time_idx_def get_time_idx_loop.simps [of s d 0]
            get_time_idx_loop.simps [of s d 1] elem_at_def)
      with lut r True show ?thesis
        by (simp add: get_point_at_distance_def elem_at_def)
    next
      case res: False
      with False lut r assms(2) have "get_time_idx s d = Inl OutOfBounds"
        by (simp add: get_time_idx_def get_time_idx_loop.simps [of s d 0]
            get_time_idx_loop.simps [of s d 1] elem_at_def)
      then show ?thesis by (simp add: get_point_at_distance_def)
    qed
  qed
qed

subsection \<open>The claims about the spline\<close>

text \<open>
  C1. Scenario A: control points (0,0,0), (1,2,0), (2,0,0) and resolution 10. The claim
  expects \<open>get_point_at_time(0.5)\<close> to be about (1,1,0), the Bernstein sum
  0.25 P0 + 0.5 P1 + 0.25 P2. \<open>f\<close> takes the binomial coefficients and the exponent of
  \<open>1 - t\<close> from \<open>size\<close>, which is 3 here, where the degree 2 belongs; the sample is
  0.125 P0 + 0.375 P1 + 0.375 P2 = (1.125, 0.75, 0).
\<close>

theorem scenario_A_point_at_half:
  "(case BezierSpline [(0, 0, 0), (1, 2, 0), (2, 0, 0)] 10 of
      Inl e \<Rightarrow> Inl e
    | Inr s \<Rightarrow> get_point_at_time s (1 / 2)) = Inr (Finite (9 / 8, 3 / 4, 0))"
  by code_simp

text \<open>
  C2. The claim expects \<open>get_point_at_time(1)\<close> to be the last control point. For the
  control points of scenario A, whose last point is (2,0,0), the last sample is the zero
  vector: at \<open>t = 1\<close> every term of \<open>f\<close> carries the factor \<open>pow(0, size - i)\<close> with
  \<open>size - i\<close> at least 1.
\<close>

theorem point_at_time_one_is_zero:
  "(case BezierSpline [(0, 0, 0), (1, 2, 0), (2, 0, 0)] 10 of
      Inl e \<Rightarrow> Inl e
    | Inr s \<Rightarrow> get_point_at_time s 1) = Inr (Finite (0, 0, 0))"
  by code_simp

text \<open>
  C3. The claim expects an arc-length table with one entry per sampled point, ending in the
  total arc length. \<open>generate_spline\<close> calls \<open>generate_distance_lut\<close> before it samples the
  points, so after construction the table is the single entry 0 while there are 11 samples.
\<close>

theorem distance_lut_after_construction:
  "(case BezierSpline [(0, 0, 0), (1, 2, 0), (2, 0, 0)] 10 of
      Inl e \<Rightarrow> Inl e
    | Inr s \<Rightarrow> Inr (distance_lut s, length (spline_points s))) = Inr ([0], 11)"
  by code_simp

text \<open>
  C4. The claim expects \<open>get_point_at_distance\<close> to return the first sample for a distance
  of 0 or below and the last sample beyond the total length. On the spline of scenario A the
  queries at distance 0, -1 and 100 all read \<open>distance_lut\<close> out of range.
\<close>

theorem point_at_distance_reads_out_of_range:
  "(case BezierSpline [(0, 0, 0), (1, 2, 0), (2, 0, 0)] 10 of
      Inl e \<Rightarrow> Inl e
    | Inr s \<Rightarrow> Inr (get_point_at_distance s 0, get_point_at_distance s (- 1),
                   get_point_at_distance s 100)) =
   Inr (Inl OutOfBounds, Inl OutOfBounds, Inl OutOfBounds)"
  by code_simp

text \<open>
  C8, as claimed: construction with no control point, or with a resolution that is not
  positive, fails with a configuration error before anything is built. It does not: with no
  control point and resolution 10 the constructor returns a spline of 11 samples at the
  origin, with one control point and resolution -1 a spline without samples, and with
  resolution 0 a spline of one sample, at the origin when there is no control point and
  with coordinates that are not numbers when there is one.
\<close>

theorem construction_unvalidated_counterexample:
  "BezierSpline [] 10 =
     Inr \<lparr>input_points = [], resolution = 10, size_m = 0, binomial_lut = [],
          distance_lut = [0], spline_points = replicate 11 (Finite (0, 0, 0))\<rparr> \<and>
   BezierSpline [(1, 1, 1)] (- 1) =
     Inr \<lparr>input_points = [(1, 1, 1)], resolution = - 1, size_m = 1, binomial_lut = [1],
          distance_lut = [0], spline_points = []\<rparr> \<and>
   BezierSpline [] 0 =
     Inr \<lparr>input_points = [], resolution = 0, size_m = 0, binomial_lut = [],
          distance_lut = [0], spline_points = [Finite (0, 0, 0)]\<rparr> \<and>
   BezierSpline [(1, 1, 1)] 0 =
     Inr \<lparr>input_points = [(1, 1, 1)], resolution = 0, size_m = 1, binomial_lut = [1],
          distance_lut = [0], spline_points = [AllNaN]\<rparr>"
  by code_simp

text \<open>
  C8, amended: construction does not validate its arguments. For every sequence of control
  points that an \<open>int\<close> can count, the empty one included, and every \<open>int\<close> resolution
  below the largest \<open>int\<close>, zero and the negative ones included, it completes: it stores
  the control points and the resolution and samples \<open>resolution + 1\<close> points, none when
  that is not positive.
\<close>

theorem construction_completes:
  "int (length points) \<le> INT_MAX \<Longrightarrow> INT_MIN \<le> res \<Longrightarrow> res < INT_MAX \<Longrightarrow>
   \<exists>s. BezierSpline points res = Inr s \<and> input_points s = points \<and> resolution s = res \<and>
       length (spline_points s) = nat (res + 1)"
  using construct_result [of res points] by auto

theorem construction_completes_witness:
  "\<exists>s. BezierSpline [] 0 = Inr s \<and> input_points s = [] \<and> resolution s = 0 \<and>
       length (spline_points s) = 1"
  using construction_completes [of "[]" 0] by simp

text \<open>
  C9. The claim expects the binomial table to have one entry per control point after every
  \<open>generate_spline\<close>. \<open>generate_binomial_lut\<close> appends to the table without clearing it:
  rebuilding the spline of scenario A from two control points leaves five entries, and the
  assertion of \<open>generate_spline\<close> fails.
\<close>

theorem rebuild_with_fewer_points_fails:
  "(case BezierSpline [(0, 0, 0), (1, 2, 0), (2, 0, 0)] 10 of
      Inl e \<Rightarrow> Inl e
    | Inr s \<Rightarrow> generate_spline s [(0, 0, 0), (2, 0, 0)] 10) = Inl AssertionFailed"
  by code_simp

section \<open>Properties of the planning service\<close>

text \<open>
  C10. The claim expects one point per waypoint, with the waypoint's coordinates. The
  result starts with as many zero points as there are waypoints, and the converted
  waypoints follow.
\<close>

theorem waypoints_conversion_doubles:
  "waypoints_to_geometry_msgs_points [(1, 2, 3)] = [Point 0 0 0, Point 1 2 3]"
  by (simp add: waypoints_to_geometry_msgs_points_def to_point_def)

lemma waypoints_conversion_length:
  "length (waypoints_to_geometry_msgs_points wps) = 2 * length wps"
  by (simp add: waypoints_to_geometry_msgs_points_def)

text \<open>The converted waypoints are the end of the result.\<close>

lemma waypoints_conversion_ends_with_path:
  "\<exists>pre. waypoints_to_geometry_msgs_points wps = pre @ map to_point wps"
  by (simp add: waypoints_to_geometry_msgs_points_def)

subsection \<open>The growth loop\<close>

lemma visited_Suc:
  "visited ops r (Suc n) = visited ops r n @ (case created_at ops r n of None \<Rightarrow> [] | Some q \<Rightarrow> [q])"
  by (simp add: visited_def List.map_filter_def split: option.splits)

lemma best_so_far_step:
  assumes "best_so_far g ps bg bp"
  shows "best_so_far g (ps @ [q])
           (if (case bg of None \<Rightarrow> True | Some b \<Rightarrow> g q > b) then Some (g q) else bg)
           (if (case bg of None \<Rightarrow> True | Some b \<Rightarrow> g q > b) then q else bp)"
proof (cases "ps = []")
  case True
  with assms have "bg = None"
    by (auto simp: best_so_far_def is_first_best_def)
  with True show ?thesis
    by (auto simp: best_so_far_def is_first_best_def)
next
  case False
  with assms obtain b where b: "is_first_best g ps b" "bg = Some (g (ps ! b))" "bp = ps ! b"
    by (auto simp: best_so_far_def)
  show ?thesis
  proof (cases "g q > g (ps ! b)")
    case True
    have "is_first_best g (ps @ [q]) (length ps)"
      using b(1) True
      by (fastforce simp: is_first_best_def nth_append less_Suc_eq)
    with True b show ?thesis
      by (auto simp: best_so_far_def)
  next
    case False
    have "is_first_best g (ps @ [q]) b"
      using b(1) False
      by (auto simp: is_first_best_def nth_append less_Suc_eq)
    with False b show ?thesis
      by (auto simp: best_so_far_def nth_append is_first_best_def)
  qed
qed

text \<open>One iteration of the loop: no node, a node below the threshold, a node at or above it.\<close>

lemma nbv_loop_step_none:
  assumes "i < max_iterations" and "tree st = tree_after ops r i"
    and "created_at ops r i = None" and "\<not> found_suitable_nbv st"
  shows "nbv_loop ops g env thr max_iterations i st =
         nbv_loop ops g env thr max_iterations (Suc i)
           (st\<lparr>tree := tree_after ops r (Suc i), grow_calls := grow_calls st + 1\<rparr>)"
  using assms
  by (subst nbv_loop.simps) (simp add: created_at_def split_beta Let_def)

lemma nbv_loop_step_low:
  assumes "i < max_iterations" and "tree st = tree_after ops r i"
    and "created_at ops r i = Some q" and "\<not> found_suitable_nbv st" and "g m q < thr"
  shows "nbv_loop ops g (Some m) thr max_iterations i st =
         nbv_loop ops g (Some m) thr max_iterations (Suc i)
           (st\<lparr>tree := tree_after ops r (Suc i), grow_calls := grow_calls st + 1,
               best_gain := (if (case best_gain st of None \<Rightarrow> True | Some b \<Rightarrow> g m q > b)
                             then Some (g m q) else best_gain st),
               best_point := (if (case best_gain st of None \<Rightarrow> True | Some b \<Rightarrow> g m q > b)
                              then q else best_point st)\<rparr>)"
  using assms
  by (subst nbv_loop.simps) (simp add: created_at_def split_beta Let_def on_new_node_def)



text \<open>
  The loop from iteration \<open>i\<close> on: when no node reaches the threshold it runs to
  \<open>max_iterations\<close> and keeps the best node; when iteration \<open>k\<close> is the first to reach it,
  the loop ends there.
\<close>

lemma nbv_loop_no_hit:
  assumes "\<forall>j. i \<le> j \<and> j < max_iterations \<longrightarrow>
             (\<forall>q. created_at ops r j = Some q \<longrightarrow> g m q < thr)"
    and "i \<le> max_iterations" and "tree st = tree_after ops r i"
    and "\<not> found_suitable_nbv st"
    and "best_so_far (g m) (visited ops r i) (best_gain st) (best_point st)"
  shows "\<exists>st'. nbv_loop ops g (Some m) thr max_iterations i st = Inr st' \<and>
           tree st' = tree_after ops r max_iterations \<and>
           grow_calls st' = grow_calls st + (max_iterations - i) \<and>
           \<not> found_suitable_nbv st' \<and> success st' = success st \<and> response st' = response st \<and>
           best_so_far (g m) (visited ops r max_iterations) (best_gain st') (best_point st')"
  using assms
proof (induction n \<equiv> "max_iterations - i" arbitrary: i st)
  case 0
  then have "i = max_iterations" by simp
  with 0 show ?case
    by (subst nbv_loop.simps) simp
next
  case (Suc n)
  then have lt: "i < max_iterations" and n: "n = max_iterations - Suc i" by simp_all
  have low: "\<forall>j. Suc i \<le> j \<and> j < max_iterations \<longrightarrow>
               (\<forall>q. created_at ops r j = Some q \<longrightarrow> g m q < thr)"
    using Suc.prems(1) by (meson Suc_leD)
  show ?case
  proof (cases "created_at ops r i")
    case None
    let ?st = "st\<lparr>tree := tree_after ops r (Suc i), grow_calls := grow_calls st + 1\<rparr>"
    have step: "nbv_loop ops g (Some m) thr max_iterations i st =
                nbv_loop ops g (Some m) thr max_iterations (Suc i) ?st"
      using lt Suc.prems(3) None Suc.prems(4) by (rule nbv_loop_step_none)
    have best: "best_so_far (g m) (visited ops r (Suc i)) (best_gain ?st) (best_point ?st)"
      using Suc.prems(5) None by (simp add: visited_Suc)
    from Suc.hyps(1) [OF n low _ _ _ best] lt Suc.prems(4)
    obtain st' where "nbv_loop ops g (Some m) thr max_iterations (Suc i) ?st = Inr st'"
      "tree st' = tree_after ops r max_iterations"
      "grow_calls st' = grow_calls ?st + (max_iterations - Suc i)"
      "\<not> found_suitable_nbv st'" "success st' = success ?st" "response st' = response ?st"
      "best_so_far (g m) (visited ops r max_iterations) (best_gain st') (best_point st')"
      by auto
    with lt show ?thesis unfolding step by auto
  next
    case (Some q)
    with Suc.prems(1) lt have q: "g m q < thr" by (meson le_refl)
    let ?b = "(case best_gain st of None \<Rightarrow> True | Some b \<Rightarrow> g m q > b)"
    let ?st = "st\<lparr>tree := tree_after ops r (Suc i), grow_calls := grow_calls st + 1,
               best_gain := (if ?b then Some (g m q) else best_gain st),
               best_point := (if ?b then q else best_point st)\<rparr>"
    have step: "nbv_loop ops g (Some m) thr max_iterations i st =
                nbv_loop ops g (Some m) thr max_iterations (Suc i) ?st"
      using lt Suc.prems(3) Some Suc.prems(4) q by (rule nbv_loop_step_low)
    have best: "best_so_far (g m) (visited ops r (Suc i)) (best_gain ?st) (best_point ?st)"
      using best_so_far_step [OF Suc.prems(5), of q] Some by (simp add: visited_Suc)
    from Suc.hyps(1) [OF n low _ _ _ best] lt Suc.prems(4)
    obtain st' where "nbv_loop ops g (Some m) thr max_iterations (Suc i) ?st = Inr st'"
      "tree st' = tree_after ops r max_iterations"
      "grow_calls st' = grow_calls ?st + (max_iterations - Suc i)"
      "\<not> found_suitable_nbv st'" "success st' = success ?st" "response st' = response ?st"
      "best_so_far (g m) (visited ops r max_iterations) (best_gain st') (best_point st')"
      by auto
    with lt show ?thesis unfolding step by auto
  qed
qed



lemma created_in_visited:
  "q \<in> set (visited ops r n) \<longleftrightarrow> (\<exists>j<n. created_at ops r j = Some q)"
proof (induction n)
  case 0
  show ?case by (simp add: visited_def List.map_filter_def)
next
  case (Suc n)
  show ?case
  proof (cases "created_at ops r n")
    case None
    with Suc show ?thesis
      by (metis append_Nil2 less_Suc_eq option.distinct(1) option.simps(4) visited_Suc)
  next
    case (Some p)
    then have "set (visited ops r (Suc n)) = insert p (set (visited ops r n))"
      by (simp add: visited_Suc)
    with Suc Some show ?thesis
      by (metis insert_iff less_Suc_eq option.inject)
  qed
qed

text \<open>Without a map, the first node that is created stops the run in the callback.\<close>

lemma nbv_loop_null_map:
  assumes "\<forall>j. i \<le> j \<and> j < k \<longrightarrow> created_at ops r j = None"
    and "i \<le> k" and "k < max_iterations" and "created_at ops r k = Some p"
    and "tree st = tree_after ops r i" and "\<not> found_suitable_nbv st"
  shows "nbv_loop ops g None thr max_iterations i st = Inl NullDereference"
  using assms
proof (induction n \<equiv> "k - i" arbitrary: i st)
  case 0
  then have "i = k" by simp
  with 0 show ?case
    by (subst nbv_loop.simps) (simp add: created_at_def split_beta Let_def on_new_node_def)
next
  case (Suc n)
  then have lt: "i < k" and n: "n = k - Suc i" and lt': "i < max_iterations" by simp_all
  have none: "created_at ops r i = None" using Suc.prems(1) lt by simp
  have rest: "\<forall>j. Suc i \<le> j \<and> j < k \<longrightarrow> created_at ops r j = None"
    using Suc.prems(1) by (meson Suc_leD)
  let ?st = "st\<lparr>tree := tree_after ops r (Suc i), grow_calls := grow_calls st + 1\<rparr>"
  have "nbv_loop ops g None thr max_iterations i st =
        nbv_loop ops g None thr max_iterations (Suc i) ?st"
    using lt' Suc.prems(5) none Suc.prems(6) by (rule nbv_loop_step_none)
  also have "\<dots> = Inl NullDereference"
    using Suc.prems(6) lt by (intro Suc.hyps(1) [OF n rest _ Suc.prems(3,4)]) simp_all
  finally show ?case .
qed

lemma nbv_handler_null_map:
  assumes "\<forall>j<k. created_at ops rrt j = None" and "k < max_iterations"
    and "created_at ops rrt k = Some p"
  shows "nbv_handler ops g rrt [] thr max_iterations = Inl NullDereference"
proof -
  let ?st0 = "\<lparr>tree = rrt, best_gain = None, best_point = (0, 0, 0),
               found_suitable_nbv = False,
               response = \<lparr>waypoints = [], found_nbv_with_sufficent_gain = False\<rparr>,
               success = False, grow_calls = 0\<rparr>"
  have "nbv_loop ops g None thr max_iterations 0 ?st0 = Inl NullDereference"
    using assms by (intro nbv_loop_null_map [where k = k and r = rrt and p = p]) simp_all
  then show ?thesis
    by (simp add: nbv_handler_def call_get_environment_octomap_def)
qed

subsection \<open>The claims about the handlers\<close>

text \<open>
  C5, as claimed: when the map is unavailable the run aborts, nothing is grown and no
  waypoints are returned. With no map data and a tree whose \<open>run\<close> finds a path, the
  path-planning handler reports success and returns waypoints.
\<close>

theorem find_path_without_map_counterexample:
  "rrt_find_path_handler scripted_rrt ([(0, 0, 0)], [Some (1, 0, 0)]) [] =
     (True, [Point 0 0 0, Point 0 0 0, Point 0 0 0, Point 1 0 0])"
  by code_simp

text \<open>
  C5, amended: when the map is unavailable the path-planning handler does not abort. It
  leaves the tree without a map and calls \<open>run\<close> on it; it reports success with the
  converted path when \<open>run\<close> yields one, and failure without waypoints otherwise.
\<close>

theorem find_path_without_map:
  "rrt_find_path_handler ops rrt [] =
     (case run ops rrt of
        Some path \<Rightarrow> (True, waypoints_to_geometry_msgs_points path)
      | None \<Rightarrow> (False, []))"
  by (simp add: rrt_find_path_handler_def call_get_environment_octomap_def)




text \<open>
  What the fallback does when a map is available and the threshold is above the score of
  every node visited: all \<open>max_iterations\<close> calls of \<open>grow1\<close> are made, no sufficient gain
  is reported, and, when a node was visited, the tree is asked for the path to the position
  of the visited node that scores highest, the first one seen among equals; the waypoints
  of the response end with the points of that path (there are none when the tree yields no
  path).
\<close>

lemma nbv_fallback_first_best:
  assumes "call_get_environment_octomap map_data = Some m"
    and "r = assign_octomap ops rrt m"
    and "vs = visited ops r max_iterations"
    and "\<forall>q \<in> set vs. gain_of_fov m q < threshold"
  shows "\<exists>st. nbv_handler ops gain_of_fov rrt map_data threshold max_iterations = Inr st \<and>
           grow_calls st = max_iterations \<and> tree st = tree_after ops r max_iterations \<and>
           \<not> success st \<and> \<not> found_nbv_with_sufficent_gain (response st) \<and>
           (vs \<noteq> [] \<longrightarrow>
              (\<exists>b. is_first_best (gain_of_fov m) vs b \<and>
                 (case get_waypoints_from_nearsest_node_to ops (tree st) (vs ! b) of
                    Some path \<Rightarrow> \<exists>pre. waypoints (response st) = pre @ map to_point path
                  | None \<Rightarrow> waypoints (response st) = [])))"
proof -
  let ?st0 = "\<lparr>tree = r, best_gain = None, best_point = (0, 0, 0),
               found_suitable_nbv = False,
               response = \<lparr>waypoints = [], found_nbv_with_sufficent_gain = False\<rparr>,
               success = False, grow_calls = 0\<rparr>"
  have low: "\<forall>j. 0 \<le> j \<and> j < max_iterations \<longrightarrow>
               (\<forall>q. created_at ops r j = Some q \<longrightarrow> gain_of_fov m q < threshold)"
  proof (intro allI impI)
    fix j q
    assume j: "0 \<le> j \<and> j < max_iterations" and q: "created_at ops r j = Some q"
    then have "q \<in> set vs"
      unfolding assms(3) by (auto simp: created_in_visited)
    with assms(4) show "gain_of_fov m q < threshold" by blast
  qed
  have init: "best_so_far (gain_of_fov m) (visited ops r 0) (best_gain ?st0) (best_point ?st0)"
    by (simp add: best_so_far_def visited_def List.map_filter_def)
  from nbv_loop_no_hit [where g = gain_of_fov and m = m and i = 0 and st = ?st0,
      OF low _ _ _ init]
  obtain st' where st': "nbv_loop ops gain_of_fov (Some m) threshold max_iterations 0 ?st0 = Inr st'"
    "tree st' = tree_after ops r max_iterations" "grow_calls st' = max_iterations"
    "\<not> found_suitable_nbv st'" "\<not> success st'"
    "response st' = \<lparr>waypoints = [], found_nbv_with_sufficent_gain = False\<rparr>"
    "best_so_far (gain_of_fov m) vs (best_gain st') (best_point st')"
    unfolding assms(3) by auto
  define fallback where
    "fallback = get_waypoints_from_nearsest_node_to ops (tree st') (best_point st')"
  define st'' where
    "st'' = (case fallback of
               Some path \<Rightarrow>
                 st'\<lparr>response := \<lparr>waypoints = waypoints_to_geometry_msgs_points path,
                                   found_nbv_with_sufficent_gain = False\<rparr>\<rparr>
             | None \<Rightarrow> st')"
  have res: "nbv_handler ops gain_of_fov rrt map_data threshold max_iterations = Inr st''"
    using st'(1,5) assms(1,2)
    by (simp add: nbv_handler_def st''_def fallback_def split: option.splits)
  have flds: "grow_calls st'' = max_iterations" "tree st'' = tree_after ops r max_iterations"
    "\<not> success st''" "\<not> found_nbv_with_sufficent_gain (response st'')"
    "tree st'' = tree st'"
    using st'(2-6) by (simp_all add: st''_def split: option.splits)
  have way: "(case fallback of
               Some path \<Rightarrow> \<exists>pre. waypoints (response st'') = pre @ map to_point path
             | None \<Rightarrow> waypoints (response st'') = [])"
    using st'(6) waypoints_conversion_ends_with_path
    by (simp add: st''_def split: option.splits)
  have best: "\<exists>b. is_first_best (gain_of_fov m) vs b \<and>
                (case get_waypoints_from_nearsest_node_to ops (tree st'') (vs ! b) of
                   Some path \<Rightarrow> \<exists>pre. waypoints (response st'') = pre @ map to_point path
                 | None \<Rightarrow> waypoints (response st'') = [])" if "vs \<noteq> []"
  proof -
    from st'(7) that obtain b where b: "is_first_best (gain_of_fov m) vs b" "best_point st' = vs ! b"
      by (auto simp: best_so_far_def)
    show ?thesis
      using b flds(5) way unfolding fallback_def by (intro exI [of _ b]) simp
  qed
  show ?thesis
    using res flds(1-4) best by blast
qed

text \<open>
  C7. The claim expects a run whose threshold is above every score to make all
  \<open>max_iterations\<close> iterations and to return the path to the best node visited. When the
  map fetch yields no map, the scoring callback dereferences the null pointer at the
  first node created, and the run neither goes through its iterations nor returns a path.
  With a map the run makes its 4 iterations, reports no sufficient gain and settles on
  (7,0,0), the first of the two nodes that score 7, but the waypoints returned are three
  points at the origin followed by the path (0,0,0), (5,0,0), (7,0,0).
\<close>

theorem nbv_fallback_run:
  "nbv_handler scripted_rrt gain_x
     ([(0, 0, 0)], [Some (5, 0, 0), None, Some (7, 0, 0), Some (7, 1, 0)]) [] 50 4 =
     Inl NullDereference \<and>
   nbv_handler scripted_rrt gain_x
     ([(0, 0, 0)], [Some (5, 0, 0), None, Some (7, 0, 0), Some (7, 1, 0)]) [1] 50 4 =
     Inr \<lparr>tree = ([(0, 0, 0), (5, 0, 0), (7, 0, 0), (7, 1, 0)], []),
          best_gain = Some 7, best_point = (7, 0, 0), found_suitable_nbv = False,
          response = \<lparr>waypoints = [Point 0 0 0, Point 0 0 0, Point 0 0 0,
                                   Point 0 0 0, Point 5 0 0, Point 7 0 0],
                      found_nbv_with_sufficent_gain = False\<rparr>,
          success = False, grow_calls = 4\<rparr>"
  by code_simp

end
